theory Spec2Isabelle
  imports Main "HOL-Library.Sublist"
begin

section \<open>Strings of the C++ program\<close>

text \<open>
  A \<open>std::string\<close> is a sequence of bytes, here a \<^typ>\<open>string\<close>. The program
  repeatedly converts a \<open>std::string\<close> to a C string (\<open>.c_str()\<close>, a \<open>%s\<close>
  argument of \<open>snprintf\<close>, \<open>std::string(buffer)\<close>): the C string ends at the first
  NUL byte.
\<close>

abbreviation NUL :: char where
  "NUL \<equiv> CHR 0x00"

abbreviation CR :: char where
  "CR \<equiv> CHR 0x0D"

abbreviation LF :: char where
  "LF \<equiv> CHR 0x0A"

definition c_str :: "string \<Rightarrow> string" where
  "c_str s = takeWhile (\<lambda>c. c \<noteq> NUL) s"

text \<open>
  The two exceptions of the program, each with its message: \<open>std::runtime_error\<close>,
  thrown by \<open>parseHTTPDate\<close> and by a cache miss, and \<open>std::out_of_range\<close>, thrown by
  \<open>std::string::substr\<close>.
\<close>

datatype runtime_error = runtime_error string

datatype out_of_range = out_of_range string

text \<open>
  \<open>std::string::find(needle)\<close>: the position of the first occurrence of the needle,
  \<open>None\<close> for \<open>std::string::npos\<close>.
\<close>

fun str_find :: "string \<Rightarrow> string \<Rightarrow> nat option" where
  "str_find [] needle = (if needle = [] then Some 0 else None)"
| "str_find (c # cs) needle =
     (if prefix needle (c # cs) then Some 0 else map_option Suc (str_find cs needle))"

text \<open>
  \<open>std::string::substr(pos)\<close>: throws \<open>std::out_of_range\<close> when \<open>pos > size()\<close>,
  and returns the characters from \<open>pos\<close> on otherwise.
\<close>

definition substr :: "string \<Rightarrow> nat \<Rightarrow> out_of_range + string" where
  "substr s pos =
     (if pos > length s then Inl (out_of_range ''basic_string::substr'') else Inr (drop pos s))"

section \<open>Message codec: the body of a response\<close>

abbreviation separator :: string where
  "separator \<equiv> [CR, LF, CR, LF]"

text \<open>
  \<open>parseHTTPBody\<close> (server.cpp, lines 131 to 154). The \<open>catch\<close> of
  \<open>std::out_of_range\<close> returns the empty string.
\<close>

definition parseHTTPBody :: "string \<Rightarrow> string" where
  "parseHTTPBody httpResponse =
     (case str_find httpResponse separator of
        None \<Rightarrow> []
      | Some endOfHeader \<Rightarrow>
          (case substr httpResponse (endOfHeader + 4) of
             Inl e \<Rightarrow> []
           | Inr httpBody \<Rightarrow> httpBody))"

section \<open>Regular expressions of the message codec\<close>

text \<open>
  The four patterns of the program are sequences of literals and of greedy repetitions of
  a character class (\<open>\s+\<close>, \<open>\s*\<close>, \<open>\S+\<close>, \<open>.*\<close>), some of them captured. An
  \<open>atom\<close> is one element of such a sequence: \<open>Rep cls n cap\<close> is \<open>n\<close> or more
  characters of the class \<open>cls\<close>, captured as a group when \<open>cap\<close> holds.
\<close>

datatype atom = Lit string | Rep "char \<Rightarrow> bool" nat bool

text \<open>\<open>\s\<close>: the white space of the "C" locale; \<open>.\<close>: any character but a line terminator.\<close>

definition isspace :: "char \<Rightarrow> bool" where
  "isspace c \<longleftrightarrow>
     c = CHR 0x20 \<or> c = CHR 0x09 \<or> c = CHR 0x0A \<or> c = CHR 0x0B \<or> c = CHR 0x0C \<or> c = CHR 0x0D"

definition nonspace :: "char \<Rightarrow> bool" where
  "nonspace c \<longleftrightarrow> \<not> isspace c"

definition anychar :: "char \<Rightarrow> bool" where
  "anychar c \<longleftrightarrow> c \<noteq> LF \<and> c \<noteq> CR"

fun first_some :: "('a \<Rightarrow> 'b option) \<Rightarrow> 'a list \<Rightarrow> 'b option" where
  "first_some f [] = None"
| "first_some f (x # xs) = (case f x of Some y \<Rightarrow> Some y | None \<Rightarrow> first_some f xs)"

text \<open>
  The backtracking matcher of \<open>std::regex\<close> (ECMAScript grammar) on such a sequence,
  from the start of \<open>s\<close>: a greedy repetition first takes the longest run of its class
  and gives characters back one at a time while the rest of the pattern fails. The result
  is the list of captured groups.
\<close>

fun rmatch :: "atom list \<Rightarrow> string \<Rightarrow> string list \<Rightarrow> string list option" where
  "rmatch [] s caps = Some caps"
| "rmatch (Lit l # as) s caps =
     (if prefix l s then rmatch as (drop (length l) s) caps else None)"
| "rmatch (Rep cls n cap # as) s caps =
     first_some (\<lambda>k. rmatch as (drop k s) (if cap then caps @ [take k s] else caps))
       (rev [n ..< Suc (length (takeWhile cls s))])"

text \<open>
  \<open>std::regex_search\<close>: the match at the leftmost position that has one. A pattern that
  begins with \<open>^\<close> can only match at position 0 (the program sets no multiline flag).
\<close>

definition regex_search :: "atom list \<Rightarrow> string \<Rightarrow> string list option" where
  "regex_search pattern s = first_some (\<lambda>i. rmatch pattern (drop i s) []) [0 ..< Suc (length s)]"

definition regex_search_bol :: "atom list \<Rightarrow> string \<Rightarrow> string list option" where
  "regex_search_bol pattern s = rmatch pattern s []"

text \<open>\<open>smatch::str(n)\<close> for \<open>n \<ge> 1\<close>: the \<open>n\<close>-th group, empty when there is none.\<close>

definition match_str :: "string list \<Rightarrow> nat \<Rightarrow> string" where
  "match_str matches n = (if 1 \<le> n \<and> n \<le> length matches then matches ! (n - 1) else [])"

section \<open>Message codec: requests and response headers\<close>

text \<open>The pattern \<^verbatim>\<open>^GET\s+(\S+)\s+HTTP\/1\.0\r\nHost:\s*(\S+)\r\n\<close>, without its \<open>^\<close>.\<close>

definition requestPattern :: "atom list" where
  "requestPattern =
     [Lit ''GET'', Rep isspace 1 False, Rep nonspace 1 True, Rep isspace 1 False,
      Lit (''HTTP/1.0'' @ [CR, LF] @ ''Host:''), Rep isspace 0 False, Rep nonspace 1 True,
      Lit [CR, LF]]"

text \<open>
  \<open>parseHTTPrequest\<close> (lines 75 to 93). \<open>path\<close> and \<open>hostName\<close> are passed by
  reference: the result holds the return value and the two variables after the call.
\<close>

definition parseHTTPrequest :: "string \<Rightarrow> string \<Rightarrow> string \<Rightarrow> bool \<times> string \<times> string" where
  "parseHTTPrequest getRequest path hostName =
     (case regex_search_bol requestPattern getRequest of
        None \<Rightarrow> (False, path, hostName)
      | Some matches \<Rightarrow> (True, c_str (match_str matches 1), c_str (match_str matches 2)))"

text \<open>The patterns \<^verbatim>\<open>Date:\s*(.*)\r\n\<close>, \<^verbatim>\<open>Last-Modified:\s*(.*)\r\n\<close>, \<^verbatim>\<open>Expires:\s*(.*)\r\n\<close>.\<close>

definition fieldPattern :: "string \<Rightarrow> atom list" where
  "fieldPattern name = [Lit name, Rep isspace 0 False, Rep anychar 0 True, Lit [CR, LF]]"

text \<open>
  \<open>parseHTTPresponse\<close> (lines 97 to 126). \<open>date\<close> and \<open>expires\<close> are passed by
  reference, \<open>lastModified\<close> by value (line 98 has no \<open>&\<close>): the function assigns its
  own copy, and the caller's variable keeps the value it had. The result is the caller's
  three variables after the call.
\<close>

definition parseHTTPresponse :: "string \<Rightarrow> string \<Rightarrow> string \<Rightarrow> string \<Rightarrow> string \<times> string \<times> string" where
  "parseHTTPresponse httpResponse date lastModified expires =
     (let date' = (case regex_search (fieldPattern ''Date:'') httpResponse of
                     Some match \<Rightarrow> c_str (match_str match 1) | None \<Rightarrow> date);
          lastModified_copy = (case regex_search (fieldPattern ''Last-Modified:'') httpResponse of
                     Some match \<Rightarrow> c_str (match_str match 1) | None \<Rightarrow> lastModified);
          expires' = (case regex_search (fieldPattern ''Expires:'') httpResponse of
                     Some match \<Rightarrow> c_str (match_str match 1) | None \<Rightarrow> expires)
      in (date', lastModified, expires'))"

section \<open>Date utility\<close>

text \<open>\<open>struct tm\<close> of the C library; \<open>std::tm tm = {}\<close> sets every field to 0.\<close>

record tm =
  tm_sec :: int
  tm_min :: int
  tm_hour :: int
  tm_mday :: int
  tm_mon :: int
  tm_year :: int
  tm_wday :: int
  tm_yday :: int
  tm_isdst :: int

definition tm_zero :: tm where
  "tm_zero = \<lparr>tm_sec = 0, tm_min = 0, tm_hour = 0, tm_mday = 0, tm_mon = 0, tm_year = 0,
               tm_wday = 0, tm_yday = 0, tm_isdst = 0\<rparr>"

text \<open>
  \<open>timegm\<close> of the C library: the seconds since 1970-01-01 00:00:00 UTC of a broken-down
  UTC time. It reads the year, month, day, hour, minute and second, brings fields out of
  range back into range with carry (which the linear formula below does), and ignores
  \<open>tm_wday\<close>, \<open>tm_yday\<close> and \<open>tm_isdst\<close>. \<open>time_t\<close> has 64 bits, so no value made
  of \<open>int\<close> fields overflows it.
\<close>

definition days_from_civil :: "int \<Rightarrow> int \<Rightarrow> int \<Rightarrow> int" where
  "days_from_civil y m d =
     (let y' = (if m \<le> 2 then y - 1 else y);
          era = y' div 400;
          yoe = y' - era * 400;
          doy = (153 * (if m > 2 then m - 3 else m + 9) + 2) div 5 + d - 1;
          doe = yoe * 365 + yoe div 4 - yoe div 100 + doy
      in era * 146097 + doe - 719468)"

definition timegm :: "tm \<Rightarrow> int" where
  "timegm t =
     (let year = 1900 + tm_year t + tm_mon t div 12;
          month = tm_mon t mod 12 + 1;
          days = days_from_civil year month 1 + (tm_mday t - 1)
      in days * 86400 + tm_hour t * 3600 + tm_min t * 60 + tm_sec t)"

section \<open>The environment of the proxy\<close>

text \<open>
  What the origin servers see of the proxy: each call of \<open>connectToServer\<close> with its
  host name and whether a socket was connected, and each \<open>send\<close> on an origin socket
  with the request (the C string in the buffer handed to \<open>send\<close>) and whether it
  succeeded.
\<close>

datatype event = Connect string bool | Send string bool

text \<open>
  What the program takes from outside itself:
  \<^item> \<open>get_time fmt s\<close>: \<open>std::get_time\<close> of the C++ library with the format \<open>fmt\<close> on a
    stream holding \<open>s\<close>; \<open>None\<close> when the stream's fail bit is set afterwards;
  \<^item> \<open>time_now\<close>: the value of \<open>time(nullptr)\<close>; one value serves a whole call of
    \<open>handleCache\<close>, where only the first comparison (of \<open>Expires\<close>) depends on it;
  \<^item> \<open>connect_ok h host\<close>: whether name resolution and \<open>connect\<close> give a socket for
    \<open>host\<close>, after the events \<open>h\<close>;
  \<^item> \<open>send_ok h request\<close>: whether \<open>send\<close> of the request succeeds (does not return -1);
  \<^item> \<open>recv h i\<close>: the bytes that the call number \<open>i\<close> of \<open>recv\<close> on the origin socket
    delivers after the events \<open>h\<close>; \<open>None\<close> or no byte when \<open>recv\<close> returns 0 or -1.
\<close>

record env =
  get_time :: "string \<Rightarrow> string \<Rightarrow> tm option"
  time_now :: int
  connect_ok :: "event list \<Rightarrow> string \<Rightarrow> bool"
  send_ok :: "event list \<Rightarrow> string \<Rightarrow> bool"
  recv :: "event list \<Rightarrow> nat \<Rightarrow> string option"

text \<open>\<open>parseHTTPDate\<close> (lines 27 to 43).\<close>

definition parseHTTPDate :: "env \<Rightarrow> string \<Rightarrow> runtime_error + int" where
  "parseHTTPDate E httpDate =
     (case get_time E ''%a, %d %b %Y %H:%M:%S'' httpDate of
        None \<Rightarrow> Inl (runtime_error ''Failed to parse date!'')
      | Some tm \<Rightarrow> Inr (timegm (tm\<lparr>tm_isdst := - 1\<rparr>)))"

datatype retDateParse = FAILURE_TO_PARSE | TIME_UNIT_PASSED | SUCCESS

text \<open>
  \<open>checkIfTimePassed\<close> (lines 47 to 71). The \<open>catch\<close> takes the
  \<open>std::runtime_error\<close> of \<open>parseHTTPDate\<close>, the one exception it throws.
\<close>

definition checkIfTimePassed :: "env \<Rightarrow> string \<Rightarrow> retDateParse" where
  "checkIfTimePassed E httpTime =
     (case parseHTTPDate E httpTime of
        Inl e \<Rightarrow> FAILURE_TO_PARSE
      | Inr checkTime \<Rightarrow>
          (let currentTime = time_now E
           in if checkTime \<le> currentTime then TIME_UNIT_PASSED else SUCCESS))"

section \<open>Cache entries and the LRU cache\<close>

text \<open>
  \<open>http::httpHeader\<close>, declared in \<open>httpUtils.h\<close>: \<open>server.cpp\<close> reads and writes
  these six fields, all of them as strings.
\<close>

record httpHeader =
  hostName :: string
  filePath :: string
  lastAccessTime :: string
  lastModified :: string
  expires :: string
  body :: string

text \<open>
  Modelled from the spec: \<open>http::LRUCache\<close>, of which \<open>server.cpp\<close> has only the
  calls; the class is in \<open>httpUtils.h\<close>. The spec gives it a mapping from keys to
  entries, a strict recency order over the keys and a capacity. The list \<open>entries\<close>
  holds the resident keys with their entries, the most recently used first.
\<close>

record LRUCache =
  capacity :: nat
  entries :: "(string \<times> httpHeader) list"

text \<open>Modelled from the spec: the constructor \<open>LRUCache(capacity)\<close> gives an empty cache.\<close>

definition LRUCache_new :: "nat \<Rightarrow> LRUCache" where
  "LRUCache_new n = \<lparr>capacity = n, entries = []\<rparr>"

text \<open>
  Modelled from the spec: \<open>fetch(key)\<close> returns the entry and promotes it to
  most-recently-used, or signals a miss without side effects if the key is absent. The
  miss is the \<open>std::runtime_error\<close> that \<open>handleCache\<close> catches; its message is not
  known.
\<close>

definition LRUCache_fetch :: "LRUCache \<Rightarrow> string \<Rightarrow> runtime_error + (httpHeader \<times> LRUCache)" where
  "LRUCache_fetch cache key =
     (case map_of (entries cache) key of
        None \<Rightarrow> Inl (runtime_error ''miss'')
      | Some entry \<Rightarrow>
          Inr (entry, cache\<lparr>entries := (key, entry) # filter (\<lambda>p. fst p \<noteq> key) (entries cache)\<rparr>))"

text \<open>
  Modelled from the spec: \<open>add(key, entry)\<close> inserts or overwrites the entry for the key
  and promotes it to most-recently-used; if this insertion pushes the size past the
  capacity, it evicts the current least-recently-used key. It never fails.
\<close>

definition LRUCache_add :: "LRUCache \<Rightarrow> string \<Rightarrow> httpHeader \<Rightarrow> LRUCache" where
  "LRUCache_add cache key entry =
     (let inserted = (key, entry) # filter (\<lambda>p. fst p \<noteq> key) (entries cache)
      in cache\<lparr>entries := (if length inserted > capacity cache then butlast inserted else inserted)\<rparr>)"

text \<open>A sequence of cache operations, run from left to right; a miss leaves the cache as it is.\<close>

datatype cache_op = Fetch string | Add string httpHeader

fun run_op :: "LRUCache \<Rightarrow> cache_op \<Rightarrow> LRUCache" where
  "run_op cache (Fetch key) =
     (case LRUCache_fetch cache key of Inl e \<Rightarrow> cache | Inr (entry, cache') \<Rightarrow> cache')"
| "run_op cache (Add key entry) = LRUCache_add cache key entry"

definition run_ops :: "LRUCache \<Rightarrow> cache_op list \<Rightarrow> LRUCache" where
  "run_ops cache ops = foldl run_op cache ops"

definition resident :: "LRUCache \<Rightarrow> string list" where
  "resident cache = map fst (entries cache)"

section \<open>Origin connector and conditional request\<close>

text \<open>
  \<open>connectToServer\<close> (lines 159 to 214), with port 80: name resolution and the loop over
  the addresses are the environment's; the result says whether a connected socket is
  returned (\<open>False\<close> for -1).
\<close>

definition connectToServer :: "env \<Rightarrow> event list \<Rightarrow> string \<Rightarrow> bool \<times> event list" where
  "connectToServer E h host =
     (let connected = connect_ok E h host in (connected, h @ [Connect host connected]))"

text \<open>
  \<open>snprintf(buf, n, ...)\<close> leaves in the buffer the first \<open>n - 1\<close> characters of the
  formatted text, as a C string.
\<close>

definition snprintf :: "nat \<Rightarrow> string \<Rightarrow> string" where
  "snprintf n formatted = take (n - 1) formatted"

text \<open>
  The receive loops (lines 243 to 247 and 538 to 542): every \<open>recv\<close> that delivers bytes
  appends them, as a C string, to the response; the loop ends when \<open>recv\<close> delivers
  nothing. An origin that never stops sending keeps the loop running: the result is
  \<open>None\<close>.
\<close>

partial_function (option) recvLoop :: "(nat \<Rightarrow> string option) \<Rightarrow> nat \<Rightarrow> string \<Rightarrow> string option" where
  "recvLoop rcv i responseBuffer =
     (case rcv i of
        None \<Rightarrow> Some responseBuffer
      | Some buffer \<Rightarrow>
          if buffer = [] then Some responseBuffer
          else recvLoop rcv (Suc i) (responseBuffer @ c_str buffer))"

declare recvLoop.simps [code]

text \<open>The request that line 232 writes into the 256 bytes of \<open>ifModReq\<close>.\<close>

definition ifModReq :: "string \<Rightarrow> httpHeader \<Rightarrow> string" where
  "ifModReq date header =
     snprintf 256
       (''GET '' @ c_str (filePath header) @ '' HTTP/1.0'' @ [CR, LF] @
        ''Host: '' @ c_str (hostName header) @ [CR, LF, CR, LF] @
        ''If-Modified-Since: '' @ c_str date @ [CR, LF, CR, LF])"

text \<open>
  \<open>sendIfModifiedSinceRequest\<close> (lines 219 to 251): the response and the events after
  the call.
\<close>

definition sendIfModifiedSinceRequest ::
    "env \<Rightarrow> event list \<Rightarrow> string \<Rightarrow> httpHeader \<Rightarrow> (string \<times> event list) option" where
  "sendIfModifiedSinceRequest E h date header =
     (case connectToServer E h (hostName header) of
        (False, h1) \<Rightarrow> Some ([], h1)
      | (True, h1) \<Rightarrow>
          (let sent = send_ok E h1 (ifModReq date header);
               h2 = h1 @ [Send (ifModReq date header) sent]
           in if \<not> sent then Some ([], h2)
              else (case recvLoop (recv E h2) 0 [] of
                      None \<Rightarrow> None
                    | Some responseBuffer \<Rightarrow> Some (responseBuffer, h2))))"

section \<open>Freshness validator\<close>

text \<open>
  The loop of lines 277 to 323 from a given \<open>priority\<close> on, entered with \<open>exitLoop\<close>
  false and \<open>requestDate\<close> empty: the values of \<open>exitLoop\<close> and \<open>requestDate\<close> after
  the loop. The dates it examines are those of the parameter \<open>header\<close>.
\<close>

function priorityLoop :: "env \<Rightarrow> httpHeader \<Rightarrow> nat \<Rightarrow> bool \<times> string" where
  "priorityLoop E header priority =
     (if priority \<le> 3 then
        (let (exitLoop, requestDate) =
               (if priority = 1 then
                  (if checkIfTimePassed E (expires header) = SUCCESS
                   then (True, expires header) else (False, []))
                else if priority = 2 then
                  (if checkIfTimePassed E (lastModified header) \<noteq> FAILURE_TO_PARSE
                   then (True, lastModified header) else (False, []))
                else if priority = 3 then
                  (if checkIfTimePassed E (lastAccessTime header) \<noteq> FAILURE_TO_PARSE
                   then (True, lastAccessTime header) else (False, []))
                else (False, []))
         in if exitLoop then (True, requestDate) else priorityLoop E header (priority + 1))
      else (False, []))"
  by pat_completeness auto
termination
  by (relation "measure (\<lambda>(E, header, priority). 4 - priority)") auto

declare priorityLoop.simps [simp del]

text \<open>
  \<open>handleCache\<close> (lines 256 to 368): the entry returned, the cache and the events after
  the call. The local variables \<open>lastModified\<close> and \<open>expires\<close> are written with a
  prime, apart from the fields of those names.
\<close>

definition handleCache ::
    "env \<Rightarrow> event list \<Rightarrow> httpHeader \<Rightarrow> LRUCache \<Rightarrow> (httpHeader \<times> LRUCache \<times> event list) option" where
  "handleCache E h header cache =
     (let key = hostName header @ filePath header
      in case LRUCache_fetch cache key of
           Inl e \<Rightarrow> Some (header, LRUCache_add cache key header, h)
         | Inr (fetchedHeader, cache1) \<Rightarrow>
             (case priorityLoop E header 1 of
                (False, requestDate) \<Rightarrow> Some (fetchedHeader, cache1, h)
              | (True, requestDate) \<Rightarrow>
                  (case sendIfModifiedSinceRequest E h requestDate fetchedHeader of
                     None \<Rightarrow> None
                   | Some (newResponse, h1) \<Rightarrow>
                       if newResponse = [] then Some (fetchedHeader, cache1, h1)
                       else
                         (let (date, lastModified', expires') =
                                parseHTTPresponse newResponse [] [] [];
                              newBody = parseHTTPBody newResponse
                          in if newBody = [] then Some (fetchedHeader, cache1, h1)
                             else
                               (let updatedHeader =
                                      \<lparr>hostName = hostName fetchedHeader,
                                       filePath = filePath fetchedHeader,
                                       lastAccessTime = date,
                                       lastModified = lastModified',
                                       expires = expires',
                                       body = newBody\<rparr>
                                in Some (updatedHeader,
                                         LRUCache_add cache1 key updatedHeader, h1))))))"

section \<open>Connection multiplexer: one readable client\<close>

text \<open>The request that line 531 writes into the 512 bytes of \<open>httpRequest\<close>.\<close>

definition httpRequest :: "string \<Rightarrow> string \<Rightarrow> string" where
  "httpRequest path host =
     snprintf 512
       (''GET '' @ c_str path @ '' HTTP/1.0'' @ [CR, LF] @
        ''Host: '' @ c_str host @ [CR, LF, CR, LF])"

text \<open>
  The body of the loop of \<open>main\<close> for a client descriptor that is ready (lines 500 to
  583). \<open>read\<close> fails, or fills the zeroed \<open>receiveBuf\<close> with the bytes given. The
  value of \<open>send\<close> at line 532 is not looked at. The client's connection is closed in
  every case, after the body of an entry was sent to it (\<open>Served\<close>) or without anything
  sent (\<open>Abandoned\<close>).
\<close>

datatype read_result = ReadFailed | ReadBytes string

datatype client_outcome = Abandoned | Served string

definition serveClient ::
    "env \<Rightarrow> event list \<Rightarrow> LRUCache \<Rightarrow> read_result \<Rightarrow> (client_outcome \<times> LRUCache \<times> event list) option" where
  "serveClient E h cache rd =
     (case rd of
        ReadFailed \<Rightarrow> Some (Abandoned, cache, h)
      | ReadBytes receiveBuf \<Rightarrow>
          (let getRequest = c_str receiveBuf;
               (retVal, path, host) = parseHTTPrequest getRequest [] []
           in case connectToServer E h host of
                (False, h1) \<Rightarrow> Some (Abandoned, cache, h1)
              | (True, h1) \<Rightarrow>
                  (let h2 = h1 @ [Send (httpRequest path host)
                                    (send_ok E h1 (httpRequest path host))]
                   in case recvLoop (recv E h2) 0 [] of
                        None \<Rightarrow> None
                      | Some responseBuffer \<Rightarrow>
                          (let (date, lastModified', expires') =
                                 parseHTTPresponse responseBuffer [] [] [];
                               responseBody = parseHTTPBody responseBuffer
                           in if responseBody = [] then Some (Abandoned, cache, h2)
                              else
                                (let header =
                                       \<lparr>hostName = host, filePath = path,
                                        lastAccessTime = date, lastModified = lastModified',
                                        expires = expires', body = responseBody\<rparr>
                                 in case handleCache E h2 header cache of
                                      None \<Rightarrow> None
                                    | Some (headerToReturn, cache', h3) \<Rightarrow>
                                        Some (Served (body headerToReturn), cache', h3))))))"

section \<open>A model of \<open>std::get_time\<close>\<close>

text \<open>
  \<open>std::get_time\<close> is the library's; the environment has it as \<open>get_time\<close>.
  \<open>std_get_time\<close> models it as libstdc++ (GCC 12 and later) implements
  \<open>std::time_get::get\<close> in the "C" locale, for the conversions of the program's format:
  \<^item> the extraction \<open>ss >> std::get_time(...)\<close> first skips the white space at the start
    of the stream, and fails on a stream that is then at its end;
  \<^item> the loop over the format fails when the input is at its end and the format is not;
  \<^item> white space in the format skips the white space of the input;
  \<^item> \<open>%a\<close> and \<open>%b\<close> read an English weekday or month name, full or abbreviated, in
    any case; \<open>%d\<close>, \<open>%H\<close>, \<open>%M\<close>, \<open>%S\<close> read one or two digits and \<open>%Y\<close> up to
    four, and fail on a value outside the range of the field;
  \<^item> when the input is at its end right after a conversion, the conversion sets the
    end-of-file bit, the loop stops, and no fail bit is set: the rest of the format is
    not looked at and the fields it would have set stay 0;
  \<^item> any other character of the format matches the same character of the input, in any
    case.

  The library also fills \<open>tm_wday\<close> and \<open>tm_yday\<close> from the date it has read;
  \<open>timegm\<close> reads neither, and the model leaves them as they are.
\<close>

definition toupper :: "char \<Rightarrow> char" where
  "toupper c =
     (let n = (of_char c :: nat) in if 97 \<le> n \<and> n \<le> 122 then char_of (n - 32) else c)"

definition isdigit :: "char \<Rightarrow> bool" where
  "isdigit c \<longleftrightarrow> (let n = (of_char c :: nat) in 48 \<le> n \<and> n \<le> 57)"

definition digit_value :: "char \<Rightarrow> int" where
  "digit_value c = int (of_char c) - 48"

definition number :: "string \<Rightarrow> int" where
  "number digits = foldl (\<lambda>a c. 10 * a + digit_value c) 0 digits"

definition get_num :: "nat \<Rightarrow> int \<Rightarrow> int \<Rightarrow> string \<Rightarrow> (int \<times> string) option" where
  "get_num width lo hi s =
     (let digits = takeWhile isdigit (take width s);
          v = number digits
      in if digits = [] \<or> v < lo \<or> hi < v then None
         else Some (v, drop (length digits) s))"

fun get_name :: "string list \<Rightarrow> int \<Rightarrow> string \<Rightarrow> (int \<times> string) option" where
  "get_name [] i s = None"
| "get_name (name # names) i s =
     (if map toupper name = map toupper (take (length name) s)
      then Some (i, drop (length name) s)
      else get_name names (i + 1) s)"

definition get_full_or_abbreviated :: "string list \<Rightarrow> string \<Rightarrow> (int \<times> string) option" where
  "get_full_or_abbreviated names s =
     (case get_name names 0 s of
        Some r \<Rightarrow> Some r
      | None \<Rightarrow> get_name (map (take 3) names) 0 s)"

definition weekdays :: "string list" where
  "weekdays = [''Sunday'', ''Monday'', ''Tuesday'', ''Wednesday'', ''Thursday'', ''Friday'',
               ''Saturday'']"

definition months :: "string list" where
  "months = [''January'', ''February'', ''March'', ''April'', ''May'', ''June'', ''July'',
             ''August'', ''September'', ''October'', ''November'', ''December'']"

definition get_conversion :: "char \<Rightarrow> string \<Rightarrow> tm \<Rightarrow> (string \<times> tm) option" where
  "get_conversion c s t =
     (if c = CHR ''a'' then
        map_option (\<lambda>(v, s'). (s', t\<lparr>tm_wday := v\<rparr>)) (get_full_or_abbreviated weekdays s)
      else if c = CHR ''b'' then
        map_option (\<lambda>(v, s'). (s', t\<lparr>tm_mon := v\<rparr>)) (get_full_or_abbreviated months s)
      else if c = CHR ''d'' then
        map_option (\<lambda>(v, s'). (s', t\<lparr>tm_mday := v\<rparr>)) (get_num 2 1 31 s)
      else if c = CHR ''Y'' then
        map_option (\<lambda>(v, s'). (s', t\<lparr>tm_year := v - 1900\<rparr>)) (get_num 4 0 9999 s)
      else if c = CHR ''H'' then
        map_option (\<lambda>(v, s'). (s', t\<lparr>tm_hour := v\<rparr>)) (get_num 2 0 23 s)
      else if c = CHR ''M'' then
        map_option (\<lambda>(v, s'). (s', t\<lparr>tm_min := v\<rparr>)) (get_num 2 0 59 s)
      else if c = CHR ''S'' then
        map_option (\<lambda>(v, s'). (s', t\<lparr>tm_sec := v\<rparr>)) (get_num 2 0 60 s)
      else None)"

function get_time_loop :: "string \<Rightarrow> string \<Rightarrow> tm \<Rightarrow> tm option" where
  "get_time_loop [] s t = Some t"
| "get_time_loop (f # fmt) s t =
     (if s = [] then None
      else if f = CHR ''%'' then
        (case fmt of
           [] \<Rightarrow> None
         | c # fmt' \<Rightarrow>
             (case get_conversion c s t of
                None \<Rightarrow> None
              | Some (s', t') \<Rightarrow> if s' = [] then Some t' else get_time_loop fmt' s' t'))
      else if isspace f then get_time_loop (dropWhile isspace fmt) (dropWhile isspace s) t
      else if toupper (hd s) = toupper f then get_time_loop fmt (tl s) t
      else None)"
  by pat_completeness auto
termination
  by (relation "measure (\<lambda>(fmt, s, t). length fmt)")
     (auto simp: less_Suc_eq_le length_dropWhile_le)

declare get_time_loop.simps [simp del]

definition std_get_time :: "string \<Rightarrow> string \<Rightarrow> tm option" where
  "std_get_time fmt s = get_time_loop fmt (dropWhile isspace s) tm_zero"

section \<open>The fixed date layout\<close>

text \<open>
  The layout of the spec, \<open><weekday>, <day> <month-name> <year>
  <hour>:<minute>:<second>\<close>, as HTTP writes it: the three-letter names, two digits for
  the day, the hour, the minute and the second, four for the year, single spaces.
  \<open>http_date w D m Y H Mi S\<close> is the text for the weekday number \<open>w\<close> (Sunday is 0),
  the day \<open>D\<close>, the month number \<open>m\<close> (January is 0), the year \<open>Y\<close> and the time
  \<open>H:Mi:S\<close>; \<open>instant D m Y H Mi S\<close> is that time in seconds since 1970, UTC.
\<close>

definition digit_char :: "nat \<Rightarrow> char" where
  "digit_char n = char_of (48 + n)"
















section \<open>Example inputs\<close>

text \<open>
  A response with the three date headers and a page, the request of a client for
  \<open>/x\<close> on \<open>a.example\<close>, and two environments at the time 1800000000 (January 2027):
  in \<open>env_up\<close> every origin is reached and answers every request with the response
  in a single \<open>recv\<close>; in \<open>env_down\<close> no origin is reached.
\<close>

definition response_page :: string where
  "response_page =
     ''HTTP/1.0 200 OK'' @ [CR, LF] @
     ''Date: Thu, 01 Jan 2026 00:00:00 GMT'' @ [CR, LF] @
     ''Last-Modified: Wed, 01 Jan 2025 00:00:00 GMT'' @ [CR, LF] @
     ''Expires: Fri, 01 Jan 2100 00:00:00 GMT'' @ [CR, LF, CR, LF] @
     ''page''"


definition env_up :: env where
  "env_up =
     \<lparr>get_time = std_get_time, time_now = 1800000000,
      connect_ok = (\<lambda>h host. True), send_ok = (\<lambda>h request. True),
      recv = (\<lambda>h i. if i = 0 then Some response_page else None)\<rparr>"

definition env_down :: env where
  "env_down =
     \<lparr>get_time = std_get_time, time_now = 1800000000,
      connect_ok = (\<lambda>h host. False), send_ok = (\<lambda>h request. False),
      recv = (\<lambda>h i. None)\<rparr>"

text \<open>An entry, and eleven distinct keys with it.\<close>

definition blank_entry :: httpHeader where
  "blank_entry = \<lparr>hostName = [], filePath = [], lastAccessTime = [], lastModified = [],
                   expires = [], body = ''page''\<rparr>"

definition eleven :: "(string \<times> httpHeader) list" where
  "eleven = map (\<lambda>k. (k, blank_entry))
     [''a'', ''b'', ''c'', ''d'', ''e'', ''f'', ''g'', ''h'', ''i'', ''j'', ''k'']"

text \<open>
  The entry of \<open>/x\<close> on \<open>a.example\<close> as \<open>main\<close> builds it from the example response
  (\<open>fresh_x\<close>), an older entry of the same page (\<open>cached_x\<close>), and one whose response
  had no date header (\<open>undated_x\<close>); a cache that holds the older entry and one that
  holds the undated one.
\<close>

definition fresh_x :: httpHeader where
  "fresh_x =
     \<lparr>hostName = ''a.example'', filePath = ''/x'',
      lastAccessTime = ''Thu, 01 Jan 2026 00:00:00 GMT'', lastModified = [],
      expires = ''Fri, 01 Jan 2100 00:00:00 GMT'', body = ''page''\<rparr>"

definition cached_x :: httpHeader where
  "cached_x =
     \<lparr>hostName = ''a.example'', filePath = ''/x'',
      lastAccessTime = ''Wed, 01 Jan 2025 00:00:00 GMT'', lastModified = [],
      expires = ''Fri, 01 Jan 2100 00:00:00 GMT'', body = ''old page''\<rparr>"

definition undated_x :: httpHeader where
  "undated_x =
     \<lparr>hostName = ''a.example'', filePath = ''/x'', lastAccessTime = [], lastModified = [],
      expires = [], body = ''old page''\<rparr>"

definition cache_x :: LRUCache where
  "cache_x = \<lparr>capacity = 10, entries = [(''a.example/x'', cached_x)]\<rparr>"

definition cache_undated :: LRUCache where
  "cache_undated = \<lparr>capacity = 10, entries = [(''a.example/x'', undated_x)]\<rparr>"

text \<open>
  An environment in which every origin is reached and answers with a status line and an
  empty body, and a request that is not a \<open>GET\<close>.
\<close>

definition env_no_body :: env where
  "env_no_body =
     \<lparr>get_time = std_get_time, time_now = 1800000000,
      connect_ok = (\<lambda>h host. True), send_ok = (\<lambda>h request. True),
      recv = (\<lambda>h i. if i = 0 then Some (''HTTP/1.0 304 Not Modified'' @ [CR, LF, CR, LF])
                       else None)\<rparr>"

definition request_post :: string where
  "request_post = ''POST /x HTTP/1.0'' @ [CR, LF] @ ''Host: a.example'' @ [CR, LF, CR, LF]"

section \<open>The body of a response\<close>

lemma str_find_Some:
  "str_find s needle = Some p \<Longrightarrow> p \<le> length s \<and> prefix needle (drop p s)"
proof (induction s arbitrary: p)
  case Nil
  then show ?case by (simp split: if_splits)
next
  case (Cons c cs)
  show ?case
  proof (cases "prefix needle (c # cs)")
    case True
    with Cons.prems show ?thesis by simp
  next
    case False
    with Cons.prems obtain q where "str_find cs needle = Some q" "p = Suc q" by auto
    with Cons.IH show ?thesis by simp
  qed
qed

lemma str_find_None:
  "str_find s needle = None \<Longrightarrow> \<not> sublist needle s"
proof (induction s)
  case Nil
  then show ?case by (simp split: if_splits)
next
  case (Cons c cs)
  then show ?case by (auto simp: sublist_Cons_right split: if_splits)
qed

lemma no_sublist_str_find:
  assumes "\<not> sublist needle s"
  shows "str_find s needle = None"
proof (cases "str_find s needle")
  case None
  then show ?thesis by simp
next
  case (Some p)
  then have "prefix needle (drop p s)" by (simp add: str_find_Some)
  then obtain zs where "drop p s = needle @ zs" by (auto simp: prefix_def)
  then have "s = take p s @ needle @ zs" by (metis append_take_drop_id)
  then have "sublist needle s" unfolding sublist_def by blast
  then show ?thesis using assms by simp
qed

lemma prefix_append_short:
  "prefix n (xs @ ys) \<Longrightarrow> length n \<le> length xs \<Longrightarrow> prefix n xs"
  by (auto simp: prefix_append)

lemma str_find_append:
  assumes "needle \<noteq> []" "\<not> sublist needle (H @ butlast needle)"
  shows "str_find (H @ needle @ B) needle = Some (length H)"
  using assms(2)
proof (induction H)
  case Nil
  from assms(1) obtain c cs where "needle @ B = c # cs" by (cases needle) auto
  moreover have "prefix needle (needle @ B)" by simp
  ultimately show ?case by simp
next
  case (Cons h H)
  have "\<not> prefix needle ((h # H) @ needle @ B)"
  proof
    assume p: "prefix needle ((h # H) @ needle @ B)"
    have "length needle \<le> length ((h # H) @ butlast needle)" by simp
    from assms(1) have "needle @ B = butlast needle @ (last needle # B)"
      by (metis append.assoc append_Cons append_Nil append_butlast_last_id)
    then have "(h # H) @ needle @ B = ((h # H) @ butlast needle) @ (last needle # B)"
      by simp
    with p have "prefix needle (((h # H) @ butlast needle) @ (last needle # B))"
      by (simp only:)
    then have "prefix needle ((h # H) @ butlast needle)"
      using \<open>length needle \<le> length ((h # H) @ butlast needle)\<close>
      by (rule prefix_append_short)
    with Cons.prems show False by (simp add: prefix_imp_sublist) 
  qed
  moreover from Cons.prems have "\<not> sublist needle (H @ butlast needle)"
    by (simp add: sublist_Cons_right)
  ultimately show ?case using Cons.IH by simp
qed


lemma str_find_separator:
  assumes "\<not> sublist separator (H @ [CR, LF, CR])"
  shows "str_find (H @ separator @ B) separator = Some (length H)"
  using str_find_append [of separator H B] assms by simp

lemma separator_within:
  assumes "str_find s separator = Some p"
  shows "p + 4 \<le> length s"
proof -
  from assms have "prefix separator (drop p s)" by (simp add: str_find_Some)
  then have "length separator \<le> length (drop p s)" by (rule prefix_length_le)
  then show ?thesis by simp
qed


text \<open>
  C9, as amended. The first \<open>\r\n\r\n\<close> of the text decides: for every header block
  \<open>H\<close> such that \<open>H\<close> followed by \<open>\r\n\r\<close> holds no \<open>\r\n\r\n\<close>, and every body
  \<open>B\<close>, \<open>parseHTTPBody\<close> of \<open>H\<close>, \<open>\r\n\r\n\<close> and \<open>B\<close> is \<open>B\<close>; and for every
  input without \<open>\r\n\r\n\<close> the result is empty.
\<close>

theorem parseHTTPBody_roundtrip:
  "(\<not> sublist separator (H @ [CR, LF, CR]) \<longrightarrow> parseHTTPBody (H @ separator @ B) = B) \<and>
   (\<not> sublist separator s \<longrightarrow> parseHTTPBody s = [])"
proof (intro conjI impI)
  assume "\<not> sublist separator (H @ [CR, LF, CR])"
  then have "str_find (H @ separator @ B) separator = Some (length H)"
    by (rule str_find_separator)
  then show "parseHTTPBody (H @ separator @ B) = B"
    by (simp add: parseHTTPBody_def substr_def)
next
  assume "\<not> sublist separator s"
  then have "str_find s separator = None" by (rule no_sublist_str_find)
  then show "parseHTTPBody s = []" by (simp add: parseHTTPBody_def)
qed

theorem parseHTTPBody_roundtrip_witness:
  "\<not> sublist separator ((''HTTP/1.0 200 OK'' @ [CR, LF] @ ''Date: x'') @ [CR, LF, CR]) \<and>
   parseHTTPBody ((''HTTP/1.0 200 OK'' @ [CR, LF] @ ''Date: x'') @ separator @ ''page'') = ''page'' \<and>
   \<not> sublist separator (''HTTP/1.0 200 OK'' @ [CR, LF]) \<and>
   parseHTTPBody (''HTTP/1.0 200 OK'' @ [CR, LF]) = []"
proof -
  have 1: "\<not> sublist separator ((''HTTP/1.0 200 OK'' @ [CR, LF] @ ''Date: x'') @ [CR, LF, CR])"
    by code_simp
  have 2: "\<not> sublist separator (''HTTP/1.0 200 OK'' @ [CR, LF])"
    by code_simp
  from 1 2 parseHTTPBody_roundtrip [of "''HTTP/1.0 200 OK'' @ [CR, LF] @ ''Date: x''" "''page''"
      "''HTTP/1.0 200 OK'' @ [CR, LF]"]
  show ?thesis by blast
qed

theorem parseHTTPBody_roundtrip_counterexample:
  "parseHTTPBody ((''Date: x'' @ [CR, LF]) @ separator @ ''page'') \<noteq> ''page''"
  by code_simp


text \<open>
  C10, as amended. \<open>parseHTTPBody\<close> never reaches its \<open>catch\<close>: the position of the
  first separator plus 4 is at most the length of the text, so \<open>substr\<close> does not throw.
  An input whose only \<open>\r\n\r\n\<close> is at its very end gives the empty string, as an input
  without any separator does.
\<close>

theorem parseHTTPBody_no_out_of_range:
  "(\<forall>p. str_find s separator = Some p \<longrightarrow>
        p + 4 \<le> length s \<and> substr s (p + 4) = Inr (drop (p + 4) s)) \<and>
   (\<not> sublist separator (H @ [CR, LF, CR]) \<longrightarrow> parseHTTPBody (H @ separator) = []) \<and>
   (\<not> sublist separator s \<longrightarrow> parseHTTPBody s = [])"
proof (intro conjI impI allI)
  fix p assume "str_find s separator = Some p"
  then show "p + 4 \<le> length s" by (rule separator_within)
  then show "substr s (p + 4) = Inr (drop (p + 4) s)" by (simp add: substr_def)
next
  assume "\<not> sublist separator (H @ [CR, LF, CR])"
  then have "str_find (H @ separator @ []) separator = Some (length H)"
    by (rule str_find_separator)
  then show "parseHTTPBody (H @ separator) = []"
    by (simp add: parseHTTPBody_def substr_def)
next
  assume "\<not> sublist separator s"
  then have "str_find s separator = None" by (rule no_sublist_str_find)
  then show "parseHTTPBody s = []" by (simp add: parseHTTPBody_def)
qed

theorem parseHTTPBody_no_out_of_range_witness:
  "str_find (''Date: x'' @ separator) separator = Some 7 \<and>
   7 + 4 \<le> length (''Date: x'' @ separator) \<and>
   substr (''Date: x'' @ separator) (7 + 4) = Inr [] \<and>
   \<not> sublist separator (''Date: x'' @ [CR, LF, CR]) \<and>
   parseHTTPBody (''Date: x'' @ separator) = [] \<and>
   \<not> sublist separator ''Date: x'' \<and>
   parseHTTPBody ''Date: x'' = []"
proof -
  have 1: "str_find (''Date: x'' @ separator) separator = Some 7" by code_simp
  have 2: "\<not> sublist separator (''Date: x'' @ [CR, LF, CR])" by code_simp
  have 3: "\<not> sublist separator ''Date: x''" by code_simp
  from parseHTTPBody_no_out_of_range [of "''Date: x'' @ separator" "''Date: x''"] 1
  have "7 + 4 \<le> length (''Date: x'' @ separator) \<and>
        substr (''Date: x'' @ separator) (7 + 4) = Inr (drop (7 + 4) (''Date: x'' @ separator))"
    by blast
  moreover from parseHTTPBody_no_out_of_range [of _ "''Date: x''"] 2
  have "parseHTTPBody (''Date: x'' @ separator) = []" by blast
  moreover from parseHTTPBody_no_out_of_range [of "''Date: x''"] 3
  have "parseHTTPBody ''Date: x'' = []" by blast
  ultimately show ?thesis using 1 2 3 by simp
qed

theorem parseHTTPBody_ends_with_separator_counterexample:
  "suffix separator (separator @ separator) \<and> parseHTTPBody (separator @ separator) \<noteq> []"
  by code_simp


section \<open>The LRU cache\<close>

lemma map_fst_filter_key:
  "map fst (filter (\<lambda>p. fst p \<noteq> k) xs) = removeAll k (map fst xs)"
  by (induction xs) auto

lemma resident_add:
  "resident (LRUCache_add c k e) =
     (if length (removeAll k (resident c)) < capacity c then k # removeAll k (resident c)
      else butlast (k # removeAll k (resident c)))"
proof -
  let ?inserted = "(k, e) # filter (\<lambda>p. fst p \<noteq> k) (entries c)"
  have m: "map fst ?inserted = k # removeAll k (resident c)"
    by (simp add: resident_def map_fst_filter_key)
  then have "length (map fst ?inserted) = Suc (length (removeAll k (resident c)))"
    by (simp only: length_Cons)
  then have l: "length ?inserted = Suc (length (removeAll k (resident c)))"
    by (simp only: length_map)
  show ?thesis
  proof (cases "length (removeAll k (resident c)) < capacity c")
    case True
    with l have "\<not> length ?inserted > capacity c" by simp
    then have "entries (LRUCache_add c k e) = ?inserted"
      by (simp add: LRUCache_add_def Let_def)
    with m True show ?thesis by (simp add: resident_def)
  next
    case False
    with l have "length ?inserted > capacity c" by simp
    then have "entries (LRUCache_add c k e) = butlast ?inserted"
      by (simp add: LRUCache_add_def Let_def)
    then have "resident (LRUCache_add c k e) = butlast (map fst ?inserted)"
      by (simp only: resident_def map_butlast)
    with m False show ?thesis by (simp only: if_False)
  qed
qed

lemma capacity_add: "capacity (LRUCache_add c k e) = capacity c"
  by (simp add: LRUCache_add_def Let_def)

lemma map_of_Some_resident: "map_of (entries c) k = Some e \<Longrightarrow> k \<in> set (resident c)"
  by (force simp: resident_def dest: map_of_SomeD)

lemma fetch_hit:
  assumes "LRUCache_fetch c k = Inr (e, c')"
  shows "resident c' = k # removeAll k (resident c)" and "capacity c' = capacity c"
    and "k \<in> set (resident c)" and "map_of (entries c) k = Some e"
proof -
  from assms have m: "map_of (entries c) k = Some e"
    and c': "c' = c\<lparr>entries := (k, e) # filter (\<lambda>p. fst p \<noteq> k) (entries c)\<rparr>"
    by (auto simp: LRUCache_fetch_def split: option.splits)
  show "map_of (entries c) k = Some e" by (rule m)
  show "k \<in> set (resident c)" using m by (rule map_of_Some_resident)
  show "capacity c' = capacity c" by (simp add: c')
  show "resident c' = k # removeAll k (resident c)"
    by (simp add: c' resident_def map_fst_filter_key)
qed

lemma fetch_miss:
  "(\<exists>e. LRUCache_fetch c k = Inl e) \<longleftrightarrow> k \<notin> set (resident c)"
proof (cases "map_of (entries c) k")
  case None
  then have "k \<notin> set (resident c)" by (simp add: resident_def map_of_eq_None_iff)
  with None show ?thesis by (simp add: LRUCache_fetch_def)
next
  case (Some e)
  then have "k \<in> set (resident c)" by (rule map_of_Some_resident)
  with Some show ?thesis by (simp add: LRUCache_fetch_def)
qed

lemma length_removeAll_distinct:
  "distinct xs \<Longrightarrow> k \<in> set xs \<Longrightarrow> Suc (length (removeAll k xs)) = length xs"
  by (induction xs) (auto simp: removeAll_id)

lemma add_inv:
  assumes "distinct (resident c)" "length (resident c) \<le> capacity c"
  shows "distinct (resident (LRUCache_add c k e)) \<and>
         length (resident (LRUCache_add c k e)) \<le> capacity (LRUCache_add c k e)"
proof -
  have d: "distinct (k # removeAll k (resident c))" using assms(1) by (simp add: distinct_removeAll)
  have l: "length (removeAll k (resident c)) \<le> capacity c"
    by (rule le_trans [OF length_removeAll_less_eq assms(2)])
  show ?thesis
  proof (cases "length (removeAll k (resident c)) < capacity c")
    case True
    with d show ?thesis by (simp add: resident_add capacity_add)
  next
    case False
    then have r: "resident (LRUCache_add c k e) = butlast (k # removeAll k (resident c))"
      by (simp only: resident_add if_False)
    have "length (butlast (k # removeAll k (resident c))) = length (removeAll k (resident c))"
      by simp
    with l have "length (butlast (k # removeAll k (resident c))) \<le> capacity c"
      by (simp only:)
    with r distinct_butlast [OF d] show ?thesis
      by (simp only: capacity_add simp_thms)
  qed
qed


lemma fetch_inv:
  assumes "distinct (resident c)" "length (resident c) \<le> capacity c"
    and "LRUCache_fetch c k = Inr (e, c')"
  shows "distinct (resident c') \<and> length (resident c') \<le> capacity c'"
  using assms fetch_hit [OF assms(3)] length_removeAll_distinct [of "resident c" k]
  by (simp add: distinct_removeAll)

lemma run_op_inv:
  assumes "distinct (resident c)" "length (resident c) \<le> capacity c"
  shows "distinct (resident (run_op c op)) \<and>
         length (resident (run_op c op)) \<le> capacity (run_op c op) \<and>
         capacity (run_op c op) = capacity c"
proof (cases op)
  case (Fetch k)
  show ?thesis
  proof (cases "LRUCache_fetch c k")
    case (Inl e)
    with Fetch assms show ?thesis by simp
  next
    case (Inr r)
    obtain e c' where "r = (e, c')" by (cases r)
    with Inr Fetch fetch_inv [OF assms, of k e c'] fetch_hit(2) [of c k e c']
    show ?thesis by simp
  qed
next
  case (Add k e)
  with add_inv [OF assms, of k e] show ?thesis by (simp add: capacity_add)
qed

lemma run_ops_snoc: "run_ops c (ops @ [op]) = run_op (run_ops c ops) op"
  by (simp add: run_ops_def)

lemma run_ops_inv:
  "distinct (resident (run_ops (LRUCache_new n) ops)) \<and>
   length (resident (run_ops (LRUCache_new n) ops)) \<le> capacity (run_ops (LRUCache_new n) ops) \<and>
   capacity (run_ops (LRUCache_new n) ops) = n"
proof (induction ops rule: rev_induct)
  case Nil
  show ?case by (simp add: run_ops_def LRUCache_new_def resident_def)
next
  case (snoc op ops)
  then show ?case
    using run_op_inv [of "run_ops (LRUCache_new n) ops" op] by (simp add: run_ops_snoc)
qed

lemma butlast_take_le: "n \<le> length xs \<Longrightarrow> butlast (take n xs) = take (n - 1) xs"
  by (simp add: butlast_take)

lemma resident_adds:
  assumes "distinct (map fst kes)"
  shows "resident (run_ops (LRUCache_new n) (map (\<lambda>(k, e). Add k e) kes)) =
           take n (rev (map fst kes))"
  using assms
proof (induction kes rule: rev_induct)
  case Nil
  show ?case by (simp add: run_ops_def LRUCache_new_def resident_def)
next
  case (snoc ke kes)
  obtain k e where ke: "ke = (k, e)" by (cases ke)
  let ?c = "run_ops (LRUCache_new n) (map (\<lambda>(k, e). Add k e) kes)"
  from snoc have r: "resident ?c = take n (rev (map fst kes))" by simp
  from snoc.prems ke have "k \<notin> set (map fst kes)" by simp
  then have "k \<notin> set (take n (rev (map fst kes)))"
    by (metis in_set_takeD set_rev)
  then have rm: "removeAll k (resident ?c) = take n (rev (map fst kes))"
    by (simp add: r removeAll_id)
  have cap: "capacity ?c = n" using run_ops_inv [of n "map (\<lambda>(k, e). Add k e) kes"] by simp
  have "resident (LRUCache_add ?c k e) = take n (k # rev (map fst kes))"
  proof (cases "length kes < n")
    case True
    then show ?thesis by (simp add: resident_add rm cap)
  next
    case False
    then have le: "n \<le> length (rev (map fst kes))" by simp
    show ?thesis
    proof (cases n)
      case 0
      with rm have "removeAll k (resident ?c) = []" by simp
      with 0 cap show ?thesis by (simp add: resident_add)
    next
      case (Suc m)
      let ?xs = "take n (rev (map fst kes))"
      from le have len: "length ?xs = n" by simp
      with Suc have ne: "?xs \<noteq> []" by auto
      from len rm cap have "\<not> length (removeAll k (resident ?c)) < capacity ?c" by simp
      then have "resident (LRUCache_add ?c k e) = butlast (k # ?xs)"
        by (simp only: resident_add rm if_False)
      also from ne have "\<dots> = k # butlast ?xs" by simp
      also from le Suc have "butlast ?xs = take m (rev (map fst kes))"
        by (simp add: butlast_take)
      finally show ?thesis using Suc by simp
    qed
  qed
  with ke show ?case by (simp add: run_ops_snoc)
qed


lemma resident_add_cases:
  assumes "distinct (resident c)" "length (resident c) \<le> capacity c" "0 < capacity c"
  shows "resident (LRUCache_add c k e) =
           (if k \<in> set (resident c) \<or> length (resident c) < capacity c
            then k # removeAll k (resident c) else k # butlast (resident c))"
proof (cases "k \<in> set (resident c)")
  case True
  with assms length_removeAll_distinct [of "resident c" k]
  have "length (removeAll k (resident c)) < capacity c" by simp
  with True show ?thesis by (simp add: resident_add)
next
  case False
  then have rm: "removeAll k (resident c) = resident c" by (simp add: removeAll_id)
  show ?thesis
  proof (cases "length (resident c) < capacity c")
    case True
    with False rm show ?thesis by (simp add: resident_add)
  next
    case full: False
    with assms(2,3) have "resident c \<noteq> []" by auto
    with False full rm show ?thesis by (simp add: resident_add)
  qed
qed

text \<open>
  C4. After every sequence of \<open>fetch\<close> and \<open>add\<close> operations on a cache of capacity 10,
  at most 10 keys are resident, and they are distinct. A \<open>fetch\<close> that hits and every
  \<open>add\<close> put their key first in the recency order and keep the order of the others.
  An \<open>add\<close> of a new key to a full cache drops the last key of the order, the least
  recently used, and no other. After 11 distinct keys were added to the empty cache, the
  first one is absent and the other 10 are resident, the last added first.
\<close>

theorem LRUCache_capacity_10:
  "length (resident (run_ops (LRUCache_new 10) ops)) \<le> 10 \<and>
   distinct (resident (run_ops (LRUCache_new 10) ops)) \<and>
   (\<forall>k e c'. LRUCache_fetch (run_ops (LRUCache_new 10) ops) k = Inr (e, c') \<longrightarrow>
      resident c' = k # removeAll k (resident (run_ops (LRUCache_new 10) ops))) \<and>
   (\<forall>k e. resident (LRUCache_add (run_ops (LRUCache_new 10) ops) k e) =
      (if k \<in> set (resident (run_ops (LRUCache_new 10) ops)) \<or>
          length (resident (run_ops (LRUCache_new 10) ops)) < 10
       then k # removeAll k (resident (run_ops (LRUCache_new 10) ops))
       else k # butlast (resident (run_ops (LRUCache_new 10) ops)))) \<and>
   (\<forall>kes. distinct (map fst kes) \<and> length kes = 11 \<longrightarrow>
      resident (run_ops (LRUCache_new 10) (map (\<lambda>(k, e). Add k e) kes)) = rev (tl (map fst kes)) \<and>
      fst (hd kes) \<notin> set (resident (run_ops (LRUCache_new 10) (map (\<lambda>(k, e). Add k e) kes))))"
proof -
  let ?c = "run_ops (LRUCache_new 10) ops"
  have inv: "distinct (resident ?c)" "length (resident ?c) \<le> capacity ?c" "capacity ?c = 10"
    using run_ops_inv [of 10 ops] by simp_all
  have 1: "length (resident ?c) \<le> 10" using inv by simp
  have 3: "\<forall>k e c'. LRUCache_fetch ?c k = Inr (e, c') \<longrightarrow>
             resident c' = k # removeAll k (resident ?c)"
    by (auto dest: fetch_hit(1))
  have 4: "\<forall>k e. resident (LRUCache_add ?c k e) =
      (if k \<in> set (resident ?c) \<or> length (resident ?c) < 10
       then k # removeAll k (resident ?c) else k # butlast (resident ?c))"
    using resident_add_cases [OF inv(1) inv(2)] inv(3) by simp
  have 5: "\<forall>kes. distinct (map fst kes) \<and> length kes = 11 \<longrightarrow>
      resident (run_ops (LRUCache_new 10) (map (\<lambda>(k, e). Add k e) kes)) = rev (tl (map fst kes)) \<and>
      fst (hd kes) \<notin> set (resident (run_ops (LRUCache_new 10) (map (\<lambda>(k, e). Add k e) kes)))"
  proof (intro allI impI)
    fix kes :: "(string \<times> httpHeader) list"
    assume a: "distinct (map fst kes) \<and> length kes = 11"
    then obtain x xs where kes: "kes = x # xs" and len: "length xs = 10"
      by (cases kes) auto
    from a have "resident (run_ops (LRUCache_new 10) (map (\<lambda>(k, e). Add k e) kes)) =
                   take 10 (rev (map fst kes))"
      by (simp add: resident_adds)
    also from kes len have "\<dots> = rev (tl (map fst kes))" by simp
    finally have r: "resident (run_ops (LRUCache_new 10) (map (\<lambda>(k, e). Add k e) kes)) =
                       rev (tl (map fst kes))" .
    moreover from a kes have "fst (hd kes) \<notin> set (rev (tl (map fst kes)))" by simp
    ultimately show "resident (run_ops (LRUCache_new 10) (map (\<lambda>(k, e). Add k e) kes)) =
        rev (tl (map fst kes)) \<and>
      fst (hd kes) \<notin> set (resident (run_ops (LRUCache_new 10) (map (\<lambda>(k, e). Add k e) kes)))"
      by (simp only: simp_thms)
  qed
  from 1 inv(1) 3 4 5 show ?thesis by (intro conjI)
qed

theorem LRUCache_capacity_10_witness:
  "LRUCache_fetch (run_ops (LRUCache_new 10) [Add ''a'' blank_entry, Add ''b'' blank_entry]) ''a'' =
     Inr (blank_entry, \<lparr>capacity = 10, entries = [(''a'', blank_entry), (''b'', blank_entry)]\<rparr>) \<and>
   resident \<lparr>capacity = 10, entries = [(''a'', blank_entry), (''b'', blank_entry)]\<rparr> = [''a'', ''b''] \<and>
   distinct (map fst eleven) \<and> length eleven = 11 \<and>
   resident (run_ops (LRUCache_new 10) (map (\<lambda>(k, e). Add k e) eleven)) =
     [''k'', ''j'', ''i'', ''h'', ''g'', ''f'', ''e'', ''d'', ''c'', ''b''] \<and>
   ''a'' \<notin> set (resident (run_ops (LRUCache_new 10) (map (\<lambda>(k, e). Add k e) eleven)))"
proof -
  let ?ops = "[Add ''a'' blank_entry, Add ''b'' blank_entry]"
  let ?c' = "\<lparr>capacity = 10, entries = [(''a'', blank_entry), (''b'', blank_entry)]\<rparr>"
  have 1: "LRUCache_fetch (run_ops (LRUCache_new 10) ?ops) ''a'' = Inr (blank_entry, ?c')"
    by code_simp
  have 2: "resident (run_ops (LRUCache_new 10) ?ops) = [''b'', ''a'']" by code_simp
  have 3: "distinct (map fst eleven) \<and> length eleven = 11" by code_simp
  have 4: "rev (tl (map fst eleven)) =
             [''k'', ''j'', ''i'', ''h'', ''g'', ''f'', ''e'', ''d'', ''c'', ''b'']"
    by code_simp
  have 5: "fst (hd eleven) = ''a''" by code_simp
  from LRUCache_capacity_10 [of ?ops] 1
  have "resident ?c' = ''a'' # removeAll ''a'' (resident (run_ops (LRUCache_new 10) ?ops))"
    by blast
  with 2 have 6: "resident ?c' = [''a'', ''b'']" by simp
  from LRUCache_capacity_10 [of "[]"] 3
  have "resident (run_ops (LRUCache_new 10) (map (\<lambda>(k, e). Add k e) eleven)) =
          rev (tl (map fst eleven)) \<and>
        fst (hd eleven) \<notin> set (resident (run_ops (LRUCache_new 10) (map (\<lambda>(k, e). Add k e) eleven)))"
    by blast
  with 4 5 have 7: "resident (run_ops (LRUCache_new 10) (map (\<lambda>(k, e). Add k e) eleven)) =
     [''k'', ''j'', ''i'', ''h'', ''g'', ''f'', ''e'', ''d'', ''c'', ''b''] \<and>
   ''a'' \<notin> set (resident (run_ops (LRUCache_new 10) (map (\<lambda>(k, e). Add k e) eleven)))"
    by simp
  from 1 6 3 7 show ?thesis by blast
qed


section \<open>Dates\<close>



lemma of_char_digit_char: "n < 10 \<Longrightarrow> of_char (digit_char n) = 48 + n"
  by (simp add: digit_char_def)



lemma isspace_of_char:
  "isspace c \<longleftrightarrow> (of_char c :: nat) \<in> {9, 10, 11, 12, 13, 32}"
proof -
  have e: "(c = d) = ((of_char c :: nat) = of_char d)" for d by simp
  show ?thesis unfolding isspace_def e by auto
qed


lemma isdigit_not_space: "isdigit c \<Longrightarrow> \<not> isspace c"
  by (auto simp: isspace_of_char isdigit_def)

lemma toupper_digit_char: "n < 10 \<Longrightarrow> toupper (digit_char n) = digit_char n"
  by (simp add: toupper_def of_char_digit_char)















































section \<open>Response headers\<close>

text \<open>
  C3, which the code breaks. \<open>parseHTTPresponse\<close> takes \<open>lastModified\<close> by value, so
  the caller's variable is the same after the call as before, whatever the response
  holds. On the example response the pattern finds the value of the \<open>Last-Modified\<close>
  line, and the caller, who passed three empty strings, gets the \<open>Date\<close> and
  \<open>Expires\<close> values and an empty \<open>lastModified\<close>.
\<close>

theorem parseHTTPresponse_lastModified_by_value:
  "fst (snd (parseHTTPresponse httpResponse date lastModified_caller expires_caller)) = lastModified_caller \<and>
   regex_search (fieldPattern ''Last-Modified:'') response_page =
     Some [''Wed, 01 Jan 2025 00:00:00 GMT''] \<and>
   parseHTTPresponse response_page [] [] [] =
     (''Thu, 01 Jan 2026 00:00:00 GMT'', [], ''Fri, 01 Jan 2100 00:00:00 GMT'')"
proof (intro conjI)
  show "fst (snd (parseHTTPresponse httpResponse date lastModified_caller expires_caller)) = lastModified_caller"
    by (simp add: parseHTTPresponse_def Let_def)
  show "regex_search (fieldPattern ''Last-Modified:'') response_page =
     Some [''Wed, 01 Jan 2025 00:00:00 GMT'']" by code_simp
  show "parseHTTPresponse response_page [] [] [] =
     (''Thu, 01 Jan 2026 00:00:00 GMT'', [], ''Fri, 01 Jan 2100 00:00:00 GMT'')" by code_simp
qed


section \<open>The conditional request\<close>

text \<open>
  C8, as amended. For every date, host name and file path, each read as a C string, whose
  lengths add up to at most 207, so that the request fits the 256 bytes of its buffer, the
  conditional request is \<open>GET <path> HTTP/1.0\r\nHost: <host>\r\n\<close>, then the \<open>\r\n\<close>
  that ends the header block, then \<open>If-Modified-Since: <date>\r\n\r\n\<close>: the
  \<open>If-Modified-Since\<close> value comes after the blank line. Once the origin is connected,
  this string is what \<open>sendIfModifiedSinceRequest\<close> sends. A longer request is cut to
  its first 255 characters.
\<close>

theorem ifModReq_layout:
  "(length (c_str (filePath header)) + length (c_str (hostName header)) + length (c_str date) \<le> 207 \<longrightarrow>
      ifModReq date header =
        (''GET '' @ c_str (filePath header) @ '' HTTP/1.0'' @ [CR, LF] @
         ''Host: '' @ c_str (hostName header) @ [CR, LF]) @ [CR, LF] @
        ''If-Modified-Since: '' @ c_str date @ [CR, LF, CR, LF]) \<and>
   (connect_ok E h (hostName header) \<longrightarrow>
      (\<forall>response h'. sendIfModifiedSinceRequest E h date header = Some (response, h') \<longrightarrow>
         h' = h @ [Connect (hostName header) True,
                   Send (ifModReq date header)
                     (send_ok E (h @ [Connect (hostName header) True]) (ifModReq date header))])) \<and>
   ifModReq date header =
     take 255 (''GET '' @ c_str (filePath header) @ '' HTTP/1.0'' @ [CR, LF] @
               ''Host: '' @ c_str (hostName header) @ [CR, LF, CR, LF] @
               ''If-Modified-Since: '' @ c_str date @ [CR, LF, CR, LF])"
  by (auto simp add: ifModReq_def snprintf_def sendIfModifiedSinceRequest_def
      connectToServer_def Let_def split: option.splits if_splits)

theorem ifModReq_layout_witness:
  "length (c_str ''/x'') + length (c_str ''a.example'') + length (c_str ''Fri, 01 Jan 2100 00:00:00 GMT'') \<le> 207 \<and>
   ifModReq ''Fri, 01 Jan 2100 00:00:00 GMT''
       \<lparr>hostName = ''a.example'', filePath = ''/x'', lastAccessTime = [], lastModified = [],
        expires = [], body = []\<rparr> =
     (''GET /x HTTP/1.0'' @ [CR, LF] @ ''Host: a.example'' @ [CR, LF]) @ [CR, LF] @
     ''If-Modified-Since: Fri, 01 Jan 2100 00:00:00 GMT'' @ [CR, LF, CR, LF] \<and>
   connect_ok env_up [] ''a.example'' \<and>
   sendIfModifiedSinceRequest env_up [] ''Fri, 01 Jan 2100 00:00:00 GMT''
       \<lparr>hostName = ''a.example'', filePath = ''/x'', lastAccessTime = [], lastModified = [],
        expires = [], body = []\<rparr> =
     Some (response_page,
       [Connect ''a.example'' True,
        Send ((''GET /x HTTP/1.0'' @ [CR, LF] @ ''Host: a.example'' @ [CR, LF]) @ [CR, LF] @
              ''If-Modified-Since: Fri, 01 Jan 2100 00:00:00 GMT'' @ [CR, LF, CR, LF]) True])"
proof -
  let ?header = "\<lparr>hostName = ''a.example'', filePath = ''/x'', lastAccessTime = [],
                   lastModified = [], expires = [], body = []\<rparr>"
  let ?date = "''Fri, 01 Jan 2100 00:00:00 GMT''"
  have 1: "length (c_str ''/x'') + length (c_str ''a.example'') + length (c_str ?date) \<le> 207"
    by code_simp
  have 2: "connect_ok env_up [] ''a.example''" by (simp add: env_up_def)
  have 3: "sendIfModifiedSinceRequest env_up [] ?date ?header =
             Some (response_page,
               [Connect ''a.example'' True, Send (ifModReq ?date ?header) True])"
    by code_simp
  from 1 ifModReq_layout [of ?header ?date]
  have 4: "ifModReq ?date ?header =
     (''GET /x HTTP/1.0'' @ [CR, LF] @ ''Host: a.example'' @ [CR, LF]) @ [CR, LF] @
     ''If-Modified-Since: Fri, 01 Jan 2100 00:00:00 GMT'' @ [CR, LF, CR, LF]"
    by (simp add: c_str_def)
  from 1 2 3 4 show ?thesis by simp
qed

theorem ifModReq_truncated_counterexample:
  "\<not> sublist ''If-Modified-Since: d''
      (ifModReq ''d'' \<lparr>hostName = ''h'', filePath = replicate 300 (CHR ''a''),
         lastAccessTime = [], lastModified = [], expires = [], body = []\<rparr>)"
  by code_simp

section \<open>Returning\<close>

text \<open>
  The receive loop is the one loop of the proxy that can run forever. If every origin
  stops sending at some point, \<open>sendIfModifiedSinceRequest\<close>, \<open>handleCache\<close> and the
  serving of a client all return.
\<close>

lemma recvLoop_ends:
  assumes "rcv n = None \<or> rcv n = Some []"
  shows "i \<le> n \<Longrightarrow> \<exists>r. recvLoop rcv i acc = Some r"
proof (induction "n - i" arbitrary: i acc)
  case 0
  then have "i = n" by simp
  with assms show ?case by (subst recvLoop.simps) auto
next
  case (Suc d)
  then have "d = n - Suc i" "Suc i \<le> n" by simp_all
  with Suc.hyps(1) have "\<exists>r. recvLoop rcv (Suc i) (acc @ c_str b) = Some r" for b
    by blast
  then show ?case
    by (subst recvLoop.simps) (auto split: option.splits)
qed

lemma sendIfModifiedSinceRequest_returns:
  assumes "\<forall>h. \<exists>n. recv E h n = None \<or> recv E h n = Some []"
  shows "\<exists>r. sendIfModifiedSinceRequest E h date header = Some r"
proof (cases "connect_ok E h (hostName header)")
  case False
  then show ?thesis by (simp add: sendIfModifiedSinceRequest_def connectToServer_def)
next
  case True
  let ?h1 = "h @ [Connect (hostName header) True]"
  let ?h2 = "?h1 @ [Send (ifModReq date header) (send_ok E ?h1 (ifModReq date header))]"
  from assms obtain n where "recv E ?h2 n = None \<or> recv E ?h2 n = Some []" by blast
  then have "\<exists>r. recvLoop (recv E ?h2) 0 [] = Some r" by (rule recvLoop_ends) simp
  then obtain rb where "recvLoop (recv E ?h2) 0 [] = Some rb" by blast
  with True show ?thesis
    by (cases "send_ok E ?h1 (ifModReq date header)")
       (auto simp: sendIfModifiedSinceRequest_def connectToServer_def Let_def)
qed

lemma handleCache_returns:
  assumes "\<forall>h. \<exists>n. recv E h n = None \<or> recv E h n = Some []"
  shows "\<exists>r. handleCache E h header cache = Some r"
proof (cases "LRUCache_fetch cache (hostName header @ filePath header)")
  case (Inl e)
  then show ?thesis by (simp add: handleCache_def)
next
  case (Inr r)
  obtain fetchedHeader cache1 where r: "r = (fetchedHeader, cache1)" by (cases r)
  obtain exitLoop requestDate where p: "priorityLoop E header 1 = (exitLoop, requestDate)"
    by (cases "priorityLoop E header 1")
  show ?thesis
  proof (cases exitLoop)
    case False
    with Inr r p show ?thesis by (simp add: handleCache_def)
  next
    case True
    from sendIfModifiedSinceRequest_returns [OF assms, of h requestDate fetchedHeader]
    obtain newResponse h1 where
      "sendIfModifiedSinceRequest E h requestDate fetchedHeader = Some (newResponse, h1)"
      by auto
    with Inr r p True show ?thesis
      by (simp add: handleCache_def Let_def split: prod.splits)
  qed
qed

lemma serveClient_returns:
  assumes "\<forall>h. \<exists>n. recv E h n = None \<or> recv E h n = Some []"
  shows "\<exists>r. serveClient E h cache rd = Some r"
proof (cases rd)
  case ReadFailed
  then show ?thesis by (simp add: serveClient_def)
next
  case (ReadBytes receiveBuf)
  have r: "\<exists>r. recvLoop (recv E h2) 0 [] = Some r" for h2
  proof -
    from assms obtain n where "recv E h2 n = None \<or> recv E h2 n = Some []" by blast
    then show ?thesis by (rule recvLoop_ends) simp
  qed
  have c: "\<exists>r. handleCache E h2 header cache = Some r" for h2 header
    using assms by (rule handleCache_returns)
  obtain retVal path host where p: "parseHTTPrequest (c_str receiveBuf) [] [] = (retVal, path, host)"
    by (cases "parseHTTPrequest (c_str receiveBuf) [] []")
  show ?thesis
  proof (cases "connect_ok E h host")
    case False
    with ReadBytes p show ?thesis by (simp add: serveClient_def connectToServer_def)
  next
    case True
    let ?h2 = "(h @ [Connect host True]) @
               [Send (httpRequest path host) (send_ok E (h @ [Connect host True]) (httpRequest path host))]"
    from r obtain rb where rb: "recvLoop (recv E ?h2) 0 [] = Some rb" by blast
    obtain d lm ex where ph: "parseHTTPresponse rb [] [] [] = (d, lm, ex)"
      by (cases "parseHTTPresponse rb [] [] []")
    show ?thesis
    proof (cases "parseHTTPBody rb = []")
      case e: True
      with ReadBytes p True rb ph show ?thesis
        by (simp add: serveClient_def connectToServer_def Let_def)
    next
      case ne: False
      from c obtain res where
        "handleCache E ?h2 \<lparr>hostName = host, filePath = path, lastAccessTime = d,
            lastModified = lm, expires = ex, body = parseHTTPBody rb\<rparr> cache = Some res"
        by blast
      with ReadBytes p True rb ph ne show ?thesis
        by (cases res) (simp add: serveClient_def connectToServer_def Let_def)
    qed
  qed
qed

section \<open>The freshness validator\<close>

text \<open>The loop of \<open>handleCache\<close>, unrolled: the cascade over the three dates of \<open>header\<close>.\<close>

lemma priorityLoop_cascade:
  "priorityLoop E header 1 =
     (if checkIfTimePassed E (expires header) = SUCCESS then (True, expires header)
      else if checkIfTimePassed E (lastModified header) \<noteq> FAILURE_TO_PARSE
        then (True, lastModified header)
      else if checkIfTimePassed E (lastAccessTime header) \<noteq> FAILURE_TO_PARSE
        then (True, lastAccessTime header)
      else (False, []))"
proof -
  have p4: "priorityLoop E header 4 = (False, [])"
    by (subst priorityLoop.simps) simp
  have p3: "priorityLoop E header 3 =
      (if checkIfTimePassed E (lastAccessTime header) \<noteq> FAILURE_TO_PARSE
       then (True, lastAccessTime header) else (False, []))"
    using p4 by (subst priorityLoop.simps) simp
  have p2: "priorityLoop E header 2 =
      (if checkIfTimePassed E (lastModified header) \<noteq> FAILURE_TO_PARSE
       then (True, lastModified header) else priorityLoop E header 3)"
    by (subst priorityLoop.simps) simp
  have p1: "priorityLoop E header 1 =
      (if checkIfTimePassed E (expires header) = SUCCESS
       then (True, expires header) else priorityLoop E header 2)"
    by (subst priorityLoop.simps) (simp add: numeral_2_eq_2)
  show ?thesis unfolding p1 p2 p3 by simp
qed

lemma map_of_filter_key:
  "map_of (filter (\<lambda>p. fst p \<noteq> k) xs) k' = (if k' = k then None else map_of xs k')"
  by (induction xs) auto

lemma map_of_promote:
  assumes "map_of xs k = Some e"
  shows "map_of ((k, e) # filter (\<lambda>p. fst p \<noteq> k) xs) = map_of xs"
proof
  fix k'
  show "map_of ((k, e) # filter (\<lambda>p. fst p \<noteq> k) xs) k' = map_of xs k'"
    using assms by (simp add: map_of_filter_key)
qed

lemma fetch_contents:
  assumes "LRUCache_fetch c k = Inr (e, c')"
  shows "map_of (entries c') = map_of (entries c)"
proof -
  from assms have m: "map_of (entries c) k = Some e"
    and c': "c' = c\<lparr>entries := (k, e) # filter (\<lambda>p. fst p \<noteq> k) (entries c)\<rparr>"
    by (auto simp: LRUCache_fetch_def split: option.splits)
  from map_of_promote [OF m] c' show ?thesis by simp
qed

text \<open>
  C2. When the key hits, a date is selected, and the conditional request brings no
  response byte or a response whose parsed body is empty, \<open>handleCache\<close> returns the
  entry that \<open>fetch\<close> gave and the cache as \<open>fetch\<close> left it: \<open>add\<close> is not called,
  and the cache maps the same keys to the same entries as before the call.
\<close>

theorem handleCache_revalidation_failure:
  assumes "LRUCache_fetch cache (hostName header @ filePath header) = Inr (fetchedHeader, cache1)"
    and "priorityLoop E header 1 = (True, requestDate)"
    and "sendIfModifiedSinceRequest E h requestDate fetchedHeader = Some (newResponse, h1)"
    and "newResponse = [] \<or> parseHTTPBody newResponse = []"
  shows "handleCache E h header cache = Some (fetchedHeader, cache1, h1) \<and>
         map_of (entries cache1) = map_of (entries cache) \<and>
         capacity cache1 = capacity cache"
proof -
  from assms(4) have "handleCache E h header cache = Some (fetchedHeader, cache1, h1)"
  proof
    assume "newResponse = []"
    with assms(1-3) show ?thesis by (simp add: handleCache_def)
  next
    assume "parseHTTPBody newResponse = []"
    with assms(1-3) show ?thesis
      by (simp add: handleCache_def Let_def split: prod.splits)
  qed
  moreover have "map_of (entries cache1) = map_of (entries cache)"
    using assms(1) by (rule fetch_contents)
  moreover have "capacity cache1 = capacity cache"
    using assms(1) by (rule fetch_hit(2))
  ultimately show ?thesis by simp
qed

theorem handleCache_revalidation_failure_witness:
  "LRUCache_fetch cache_x (hostName fresh_x @ filePath fresh_x) = Inr (cached_x, cache_x) \<and>
   priorityLoop env_down fresh_x 1 = (True, ''Fri, 01 Jan 2100 00:00:00 GMT'') \<and>
   sendIfModifiedSinceRequest env_down [] ''Fri, 01 Jan 2100 00:00:00 GMT'' cached_x =
     Some ([], [Connect ''a.example'' False]) \<and>
   handleCache env_down [] fresh_x cache_x = Some (cached_x, cache_x, [Connect ''a.example'' False]) \<and>
   priorityLoop env_no_body fresh_x 1 = (True, ''Fri, 01 Jan 2100 00:00:00 GMT'') \<and>
   sendIfModifiedSinceRequest env_no_body [] ''Fri, 01 Jan 2100 00:00:00 GMT'' cached_x =
     Some (''HTTP/1.0 304 Not Modified'' @ [CR, LF, CR, LF],
           [Connect ''a.example'' True, Send (ifModReq ''Fri, 01 Jan 2100 00:00:00 GMT'' cached_x) True]) \<and>
   parseHTTPBody (''HTTP/1.0 304 Not Modified'' @ [CR, LF, CR, LF]) = [] \<and>
   handleCache env_no_body [] fresh_x cache_x =
     Some (cached_x, cache_x,
           [Connect ''a.example'' True, Send (ifModReq ''Fri, 01 Jan 2100 00:00:00 GMT'' cached_x) True])"
proof -
  let ?d = "''Fri, 01 Jan 2100 00:00:00 GMT''"
  have 1: "LRUCache_fetch cache_x (hostName fresh_x @ filePath fresh_x) = Inr (cached_x, cache_x)"
    by code_simp
  have 2: "priorityLoop env_down fresh_x 1 = (True, ?d)" by code_simp
  have 3: "sendIfModifiedSinceRequest env_down [] ?d cached_x =
             Some ([], [Connect ''a.example'' False])" by code_simp
  have 4: "priorityLoop env_no_body fresh_x 1 = (True, ?d)" by code_simp
  have 5: "sendIfModifiedSinceRequest env_no_body [] ?d cached_x =
     Some (''HTTP/1.0 304 Not Modified'' @ [CR, LF, CR, LF],
           [Connect ''a.example'' True, Send (ifModReq ?d cached_x) True])" by code_simp
  have 6: "parseHTTPBody (''HTTP/1.0 304 Not Modified'' @ [CR, LF, CR, LF]) = []" by code_simp
  from handleCache_revalidation_failure [OF 1 2 3]
  have 7: "handleCache env_down [] fresh_x cache_x =
             Some (cached_x, cache_x, [Connect ''a.example'' False])" by simp
  from handleCache_revalidation_failure [OF 1 4 5] 6
  have 8: "handleCache env_no_body [] fresh_x cache_x =
     Some (cached_x, cache_x, [Connect ''a.example'' True, Send (ifModReq ?d cached_x) True])"
    by simp
  from 1 2 3 4 5 6 7 8 show ?thesis by blast
qed


text \<open>
  C1, which the code breaks. The cascade of \<open>handleCache\<close> reads \<open>header.expires\<close>,
  \<open>header.lastModified\<close> and \<open>header.lastAccessTime\<close>, the dates of the entry passed
  in for the request, not those of the entry found in the cache. Here the cache holds an
  entry for the key none of whose dates parses, so that by the claim nothing is selected,
  the cached entry is returned and no origin is contacted; the request's entry has an
  \<open>Expires\<close> date in the future, and \<open>handleCache\<close> sends a conditional request with
  that date and replaces the cached entry.
\<close>

theorem handleCache_dates_of_request_header:
  "LRUCache_fetch cache_undated (hostName fresh_x @ filePath fresh_x) =
     Inr (undated_x, cache_undated) \<and>
   checkIfTimePassed env_up (expires undated_x) = FAILURE_TO_PARSE \<and>
   checkIfTimePassed env_up (lastModified undated_x) = FAILURE_TO_PARSE \<and>
   checkIfTimePassed env_up (lastAccessTime undated_x) = FAILURE_TO_PARSE \<and>
   handleCache env_up [] fresh_x cache_undated =
     Some (fresh_x, \<lparr>capacity = 10, entries = [(''a.example/x'', fresh_x)]\<rparr>,
           [Connect ''a.example'' True,
            Send (ifModReq ''Fri, 01 Jan 2100 00:00:00 GMT'' undated_x) True])"
  by code_simp


section \<open>Requests to the origin for one client\<close>







text \<open>
  C6, which the code breaks. \<open>main\<close> does not look at the value that
  \<open>parseHTTPrequest\<close> returns (line 514). For a \<open>POST\<close> request the parse returns
  \<open>false\<close> and leaves \<open>path\<close> and \<open>host\<close> empty, and \<open>main\<close> goes on: it calls
  \<open>connectToServer\<close> with the empty host name. The client is abandoned only because,
  and if, that connection fails; if it is made, \<open>main\<close> sends a \<open>GET\<close> with an empty
  path and host, caches the answer under the empty key and serves it.
\<close>

theorem serveClient_unparsed_request:
  "parseHTTPrequest (c_str request_post) [] [] = (False, [], []) \<and>
   serveClient env_down [] (LRUCache_new 10) (ReadBytes request_post) =
     Some (Abandoned, LRUCache_new 10, [Connect [] False]) \<and>
   serveClient env_up [] (LRUCache_new 10) (ReadBytes request_post) =
     Some (Served ''page'',
           \<lparr>capacity = 10,
            entries = [([], \<lparr>hostName = [], filePath = [],
                             lastAccessTime = ''Thu, 01 Jan 2026 00:00:00 GMT'',
                             lastModified = [],
                             expires = ''Fri, 01 Jan 2100 00:00:00 GMT'',
                             body = ''page''\<rparr>)]\<rparr>,
           [Connect [] True,
            Send (''GET  HTTP/1.0'' @ [CR, LF] @ ''Host: '' @ [CR, LF, CR, LF]) True])"
  by code_simp


end
